theory Spec2Isabelle
  imports Complex_Main "HOL-Library.AList" "HOL-Library.Char_ord" "HOL-Library.List_Lexorder"
begin

section \<open>Data model\<close>

text \<open>
  The operation \<open>categorical_aggregate2d\<close> of \<open>holoviews/element/util.py\<close> turns a table
  of observations into a dense grid indexed by the first two dimensions.

  A cell of a value column is either a measurement or the null marker \<open>np.NaN\<close>.
\<close>

datatype 'v val = NaN | Val 'v

text \<open>
  A dimension is represented by its name. The table is held column-wise, as the code builds
  it (\<open>data = {xdim: ..., ydim: ..., vdim.name: ...}\<close>): \<open>xcol\<close> is the column of
  \<open>dims[0]\<close>, \<open>ycol\<close> the column of \<open>dims[1]\<close> and \<open>vcols\<close> holds one column for every
  dimension of \<open>dims[2:]\<close>. Dimension names are taken to be distinct, so the dictionary keyed
  by name is this positional list of columns.
  \<open>is_Dataset\<close> is \<open>isinstance(obj, Dataset)\<close> and \<open>gridded\<close> is \<open>obj.interface.gridded\<close>.
\<close>

record ('x, 'y, 'v) element =
  is_Dataset :: bool
  gridded :: bool
  kdims :: "string list"
  vdims :: "string list"
  xcol :: "'x list"
  ycol :: "'y list"
  vcols :: "'v val list list"

text \<open>
  The gridded dataset built at lines 137-141: the two coordinate arrays and one
  two-dimensional array (a list of rows) per value dimension.
\<close>

record ('x, 'y, 'v) grid =
  grid_kdims :: "string list"
  grid_vdims :: "string list"
  xcoords :: "'x list"
  ycoords :: "'y list"
  arrays :: "'v val list list list"

text \<open>
  \<open>_process\<close> returns either the object it was given (line 89) or a new gridded dataset
  (line 141).
\<close>

datatype ('x, 'y, 'v) returned =
  Same "('x, 'y, 'v) element"
| Gridded "('x, 'y, 'v) grid"

text \<open>
  The exceptions. \<open>ValueError\<close> carries the message of the \<open>raise\<close>; the spec names the
  first one \<open>TooManyKeyDimensions\<close> and the second one \<open>InsufficientDimensions\<close>.
  \<open>DataError\<close> is the failure of building a table from columns of different lengths,
  \<open>ReshapeError\<close> the failure of numpy's \<open>reshape\<close> on an array of the wrong size and
  \<open>InconsistentOrdering\<close> the spec's name for a cyclic precedence graph.
\<close>

datatype error =
  ValueError string
| DataError
| ReshapeError
| InconsistentOrdering

definition TooManyKeyDimensions :: error where
  "TooManyKeyDimensions = ValueError ''Cannot aggregate more than two dimensions''"

definition InsufficientDimensions :: error where
  "InsufficientDimensions =
     ValueError (''Must have at two dimensions to aggregate over'' @
                 ''and one value dimension to aggregate on.'')"

section \<open>The reducer\<close>

text \<open>
  Modelled from the spec: \<open>is_nan\<close> of \<open>core.util\<close> is not among the sources; it tests
  for the null marker.
\<close>

definition is_nan :: "'v val \<Rightarrow> bool" where
  "is_nan v = (case v of NaN \<Rightarrow> True | Val _ \<Rightarrow> False)"

text \<open>Lines 48-56: the loop returns at the first value that is not NaN. Line 52 only
  unwraps a pandas \<open>Series\<close> into the sequence of its values.\<close>

fun reduce_fn :: "'v val list \<Rightarrow> 'v val" where
  "reduce_fn [] = NaN"
| "reduce_fn (v # values) = (if \<not> is_nan v then v else reduce_fn values)"

section \<open>Helpers of the table interface\<close>

text \<open>
  Modelled from the spec: \<open>dimension_values(dim, False)\<close> of the \<open>Dataset\<close> class is not
  among the sources; it extracts the unique values of a column, preserving first-occurrence
  order.
\<close>

fun unique :: "'a list \<Rightarrow> 'a list" where
  "unique [] = []"
| "unique (x # xs) = x # unique (filter (\<lambda>y. y \<noteq> x) xs)"

text \<open>\<open>obj.ndims\<close> is the number of key dimensions, \<open>obj.dimensions()\<close> lists the key
  dimensions followed by the value dimensions.\<close>

definition ndims :: "('x, 'y, 'v) element \<Rightarrow> nat" where
  "ndims obj = length (kdims obj)"

definition dimensions :: "('x, 'y, 'v) element \<Rightarrow> string list" where
  "dimensions obj = kdims obj @ vdims obj"

text \<open>
  Modelled from the spec: \<open>groupby\<close> of the \<open>Dataset\<close> class is not among the sources; it
  partitions the rows by X value, the partitions in first-occurrence order of their X value.
  Only the Y column of each partition is read (line 112).
\<close>

definition groupby :: "('x, 'y, 'v) element \<Rightarrow> 'y list list" where
  "groupby obj =
     map (\<lambda>x. map snd (filter (\<lambda>r. fst r = x) (zip (xcol obj) (ycol obj))))
         (unique (xcol obj))"

section \<open>Global ordering of the Y values (lines 106-123)\<close>

text \<open>
  \<open>orderings\<close> is an \<open>OrderedDict\<close>: an association list in insertion order, where assigning
  to a key that is present replaces its value in place (\<open>AList.update\<close>).
  \<open>successor_edges\<close> is the inner loop of lines 117-119.
\<close>

type_synonym 'y graph = "('y \<times> 'y list) list"

fun successor_edges :: "'y list \<Rightarrow> 'y graph \<Rightarrow> 'y graph" where
  "successor_edges (p1 # p2 # vals) orderings =
     successor_edges (p2 # vals) (AList.update p1 [p2] orderings)"
| "successor_edges vals orderings = orderings"

text \<open>The body of the loop over the groups (lines 112-119); the state is
  \<open>(orderings, is_sorted)\<close>.\<close>

definition group_step ::
  "('y::linorder) list \<Rightarrow> 'y graph \<times> bool \<Rightarrow> 'y graph \<times> bool" where
  "group_step vals st =
     (case st of (orderings, is_sorted) \<Rightarrow>
        (case vals of
           [v] \<Rightarrow> (AList.update v [] orderings, is_sorted)
         | _ \<Rightarrow> (successor_edges vals orderings, is_sorted \<and> sort vals = vals)))"

definition ordering_loop ::
  "('x::linorder, 'y::linorder, 'v) element \<Rightarrow> 'y graph \<times> bool" where
  "ordering_loop obj =
     fold group_step (groupby obj) ([], sort (unique (xcol obj)) = unique (xcol obj))"

text \<open>
  Modelled from the spec: \<open>sort_topologically\<close> of \<open>core.util\<close> is not among the
  sources. It computes a topological ordering of the precedence graph, returned as a list of
  levels that line 123 chains together: an edge from \<open>p1\<close> to \<open>p2\<close> places \<open>p1\<close> before
  \<open>p2\<close>. The spec leaves the behaviour on a cyclic graph open; here no ordering is
  returned (\<open>None\<close>).

  Neither the spec nor the sources fix which topological ordering is computed. The choice
  made here is: a level holds the remaining nodes none of whose predecessors remains, in the
  order the nodes entered the graph. On a graph without edges this gives the insertion
  order, which is what the docstring shows (lines 71-76: the Y values 2000, 2005 of the
  partitions USA, UK). Apart from that example, no property below rests on this choice:
  the general properties take the computed Y order as given, and the failing inputs are
  such that a Y value is in no node of the graph.
\<close>

definition graph_nodes :: "'y graph \<Rightarrow> 'y list" where
  "graph_nodes g = unique (concat (map (\<lambda>e. fst e # snd e) g))"

definition blocked :: "'y graph \<Rightarrow> 'y list \<Rightarrow> 'y \<Rightarrow> bool" where
  "blocked g remaining n = list_ex (\<lambda>e. fst e \<in> set remaining \<and> n \<in> set (snd e)) g"

function topo_levels :: "'y graph \<Rightarrow> 'y list \<Rightarrow> 'y list list option" where
  "topo_levels g remaining =
     (if remaining = [] then Some []
      else let ready = filter (\<lambda>n. \<not> blocked g remaining n) remaining
           in if ready = [] then None
              else map_option (Cons ready)
                     (topo_levels g (filter (\<lambda>n. n \<notin> set ready) remaining)))"
  by pat_completeness auto
termination
proof (relation "measure (\<lambda>(g, remaining). length remaining)")
  show "wf (measure (\<lambda>(g, remaining). length remaining))"
    by simp
next
  fix g :: "'y graph" and remaining ready :: "'y list"
  assume ne: "remaining \<noteq> []"
    and rd: "ready = filter (\<lambda>n. \<not> blocked g remaining n) remaining"
    and rne: "ready \<noteq> []"
  from rne obtain n where n: "n \<in> set ready"
    by (cases ready) auto
  with rd have "n \<in> set remaining"
    by simp
  with n have "length (filter (\<lambda>n. n \<notin> set ready) remaining) < length remaining"
    by (intro length_filter_less) auto
  then show "((g, filter (\<lambda>n. n \<notin> set ready) remaining), (g, remaining))
               \<in> measure (\<lambda>(g, remaining). length remaining)"
    by simp
qed

definition sort_topologically :: "'y graph \<Rightarrow> 'y list list option" where
  "sort_topologically g = topo_levels g (graph_nodes g)"

text \<open>Lines 120-123: the natural sort when \<open>is_sorted\<close> survived the loop, the chained
  topological levels otherwise.\<close>

definition y_order :: "('x::linorder, 'y::linorder, 'v) element \<Rightarrow> error + 'y list" where
  "y_order obj =
     (case ordering_loop obj of (orderings, is_sorted) \<Rightarrow>
        if is_sorted then Inr (sort (unique (ycol obj)))
        else (case sort_topologically orderings of
                None \<Rightarrow> Inl InconsistentOrdering
              | Some levels \<Rightarrow> Inr (concat levels)))"

section \<open>Padding with NaNs and aggregating (lines 125-135)\<close>

text \<open>
  Modelled from the spec: \<open>cartesian_product\<close> of \<open>core.util\<close> is not among the sources.
  It builds the full cross product of the two key sequences as a dense coordinate table; the
  model returns the two coordinate arrays already flattened in row-major order (the
  \<open>flatten()\<close> of line 127), the first sequence varying slowest.
\<close>

definition cartesian_product :: "'a list \<Rightarrow> 'b list \<Rightarrow> 'a list \<times> 'b list" where
  "cartesian_product as bs =
     (concat (map (\<lambda>a. map (\<lambda>b. a) bs) as), concat (map (\<lambda>a. bs) as))"

text \<open>
  Modelled from the spec: the constructor of \<open>Dataset\<close> is not among the sources. A dataset
  is a table of rows each of which assigns a value to every declared dimension, so columns of
  different lengths make no dataset. The \<open>dataframe\<close> and \<open>dictionary\<close> interfaces are
  not gridded.
\<close>

definition Dataset ::
  "string list \<Rightarrow> string list \<Rightarrow> 'x list \<Rightarrow> 'y list \<Rightarrow> 'v val list list
     \<Rightarrow> error + ('x, 'y, 'v) element" where
  "Dataset kd vd xs ys vs =
     (if length ys = length xs \<and> list_all (\<lambda>c. length c = length xs) vs
      then Inr \<lparr>is_Dataset = True, gridded = False, kdims = kd, vdims = vd,
                xcol = xs, ycol = ys, vcols = vs\<rparr>
      else Inl DataError)"

text \<open>Lines 126-133: the dense table over the cross product, every value column filled
  with NaN. \<open>nsamples\<close> is computed at line 104 from the keys as extracted at lines
  101-102, before the Y keys are reordered.\<close>

definition dense_data ::
  "('x, 'y, 'v) element \<Rightarrow> 'y list \<Rightarrow> error + ('x, 'y, 'v) element" where
  "dense_data obj d2keys =
     (let d1keys = unique (xcol obj);
          shape = (length (unique (ycol obj)), length d1keys);
          nsamples = fst shape * snd shape
      in case cartesian_product d2keys d1keys of (ys, xs) \<Rightarrow>
           Dataset (kdims obj) (vdims obj) xs ys
             (map (\<lambda>vdim. replicate nsamples NaN) (drop 2 (dimensions obj))))"

text \<open>
  Modelled from the spec: \<open>interface.concatenate\<close> is not among the sources; it appends
  the rows of the second table to those of the first, column by column.
\<close>

definition concatenate ::
  "('x, 'y, 'v) element \<Rightarrow> ('x, 'y, 'v) element \<Rightarrow> ('x, 'y, 'v) element" where
  "concatenate a b =
     a\<lparr>xcol := xcol a @ xcol b, ycol := ycol a @ ycol b,
       vcols := map2 (@) (vcols a) (vcols b)\<rparr>"

text \<open>Line 134: the dense table comes first, the data of \<open>obj\<close> second.\<close>

definition concat_data ::
  "('x, 'y, 'v) element \<Rightarrow> ('x, 'y, 'v) element \<Rightarrow> ('x, 'y, 'v) element" where
  "concat_data dense obj = concatenate dense obj"

text \<open>
  Modelled from the spec: \<open>reindex\<close> and \<open>aggregate\<close> of the \<open>Dataset\<close> class are not
  among the sources. \<open>reindex([xdim, ydim])\<close> makes the first two dimensions the key
  dimensions and the remaining ones the value dimensions. The rows are aggregated by (X, Y)
  pair with the reducer given by the caller: one row per coordinate pair, the pairs in
  first-occurrence order, and in every value column the reducer applied to the values of the
  rows sharing the pair, in row order.
\<close>

definition group_values :: "'k list \<Rightarrow> 'c list \<Rightarrow> 'k \<Rightarrow> 'c list" where
  "group_values keys col k = map snd (filter (\<lambda>r. fst r = k) (zip keys col))"

definition aggregate ::
  "('v val list \<Rightarrow> 'v val) \<Rightarrow> ('x, 'y, 'v) element \<Rightarrow> ('x, 'y, 'v) element" where
  "aggregate fn t =
     (let keys = zip (xcol t) (ycol t); ks = unique keys
      in t\<lparr>kdims := take 2 (dimensions t), vdims := drop 2 (dimensions t),
            xcol := map fst ks, ycol := map snd ks,
            vcols := map (\<lambda>col. map (\<lambda>k. fn (group_values keys col k)) ks) (vcols t)\<rparr>)"

section \<open>Conversion to a gridded dataset (lines 137-141)\<close>

text \<open>numpy's \<open>reshape\<close> to a two-dimensional shape, row-major; it raises when the size
  of the array is not the product of the shape.\<close>

definition reshape :: "'a list \<Rightarrow> nat \<times> nat \<Rightarrow> error + 'a list list" where
  "reshape a shape =
     (case shape of (r, c) \<Rightarrow>
        if length a = r * c then Inr (map (\<lambda>i. take c (drop (i * c) a)) [0..<r])
        else Inl ReshapeError)"

text \<open>The loop of lines 139-140 over the value columns.\<close>

fun reshape_all :: "'a list list \<Rightarrow> nat \<times> nat \<Rightarrow> error + 'a list list list" where
  "reshape_all [] shape = Inr []"
| "reshape_all (col # cols) shape =
     (case reshape col shape of
        Inl e \<Rightarrow> Inl e
      | Inr a \<Rightarrow> (case reshape_all cols shape of
                    Inl e \<Rightarrow> Inl e
                  | Inr as \<Rightarrow> Inr (a # as)))"

text \<open>Lines 96-141, after the checks of lines 88-94 have passed.\<close>

definition aggregate2d ::
  "('x::linorder, 'y::linorder, 'v) element \<Rightarrow> error + ('x, 'y, 'v) returned" where
  "aggregate2d obj =
     (let d1keys = unique (xcol obj);
          shape = (length (unique (ycol obj)), length d1keys)
      in case y_order obj of
           Inl e \<Rightarrow> Inl e
         | Inr d2keys \<Rightarrow>
             (case dense_data obj d2keys of
                Inl e \<Rightarrow> Inl e
              | Inr dense \<Rightarrow>
                  (let agg = aggregate reduce_fn (concat_data dense obj)
                   in case reshape_all (vcols agg) shape of
                        Inl e \<Rightarrow> Inl e
                      | Inr arrs \<Rightarrow>
                          Inr (Gridded \<lparr>grid_kdims = kdims agg, grid_vdims = vdims agg,
                                        xcoords = d1keys, ycoords = d2keys,
                                        arrays = arrs\<rparr>))))"

section \<open>The operation\<close>

text \<open>\<open>categorical_aggregate2d._process\<close>, lines 82-141.\<close>

definition process ::
  "('x::linorder, 'y::linorder, 'v) element \<Rightarrow> error + ('x, 'y, 'v) returned" where
  "process obj =
     (if is_Dataset obj \<and> gridded obj then Inr (Same obj)
      else if ndims obj > 2 then Inl TooManyKeyDimensions
      else if length (dimensions obj) < 3 then Inl InsufficientDimensions
      else aggregate2d obj)"

section \<open>Notions used to state the properties\<close>

text \<open>A valid input: a dataset that is not gridded, with exactly two key dimensions and at
  least one value dimension, every row assigning a value to every dimension.\<close>

definition valid_input :: "('x, 'y, 'v) element \<Rightarrow> bool" where
  "valid_input obj =
     (is_Dataset obj \<and> \<not> gridded obj \<and> length (kdims obj) = 2 \<and> 1 \<le> length (vdims obj) \<and>
      length (ycol obj) = length (xcol obj) \<and> length (vcols obj) = length (vdims obj) \<and>
      list_all (\<lambda>c. length c = length (xcol obj)) (vcols obj))"


text \<open>The values that the rows of \<open>obj\<close> with coordinate pair \<open>(x, y)\<close> hold in the value
  column \<open>col\<close>, in row order.\<close>

definition pair_values ::
  "('x, 'y, 'v) element \<Rightarrow> 'v val list \<Rightarrow> 'x \<Rightarrow> 'y \<Rightarrow> 'v val list" where
  "pair_values obj col x y = group_values (zip (xcol obj) (ycol obj)) col (x, y)"

text \<open>The coordinate pairs of the cross product in the row order of the dense table: Y
  varies slowest.\<close>

definition cross :: "'x list \<Rightarrow> 'y list \<Rightarrow> ('x \<times> 'y) list" where
  "cross d1 ks = concat (map (\<lambda>y. map (\<lambda>x. (x, y)) d1) ks)"

text \<open>The grid over the Y order \<open>ks\<close> that holds at every coordinate pair the reduction of
  the values of the rows with that pair.\<close>

definition grid_of :: "('x, 'y, 'v) element \<Rightarrow> 'y list \<Rightarrow> ('x, 'y, 'v) grid" where
  "grid_of obj ks =
     \<lparr>grid_kdims = take 2 (dimensions obj), grid_vdims = drop 2 (dimensions obj),
      xcoords = unique (xcol obj), ycoords = ks,
      arrays = map (\<lambda>col. map (\<lambda>y. map (\<lambda>x. reduce_fn (pair_values obj col x y))
                                       (unique (xcol obj))) ks) (vcols obj)\<rparr>"

section \<open>Concrete inputs\<close>

text \<open>The table of the docstring (lines 71-72).\<close>

definition table_country :: "(string, int, real) element" where
  "table_country =
     \<lparr>is_Dataset = True, gridded = False, kdims = [''Country'', ''Year''],
      vdims = [''Population''], xcol = [''USA'', ''UK''], ycol = [2000, 2005],
      vcols = [[Val 282.2, Val 58.89]]\<rparr>"

text \<open>Two rows with the same coordinate pair and different values.\<close>

definition table_duplicate :: "(string, int, real) element" where
  "table_duplicate =
     \<lparr>is_Dataset = True, gridded = False, kdims = [''X'', ''Y''], vdims = [''V''],
      xcol = [''A'', ''A''], ycol = [1, 1], vcols = [[Val 5, Val 7]]\<rparr>"

text \<open>Partition A observes Y in the order 2, 1 and partition B in the order 2, 3.\<close>

definition table_two_successors :: "(string, int, real) element" where
  "table_two_successors =
     \<lparr>is_Dataset = True, gridded = False, kdims = [''X'', ''Y''], vdims = [''V''],
      xcol = [''A'', ''A'', ''B'', ''B''], ycol = [2, 1, 2, 3],
      vcols = [[Val 10, Val 20, Val 30, Val 40]]\<rparr>"


text \<open>The pair (A, 1) occurs in two rows, the first of which holds NaN.\<close>

definition table_override :: "(string, int, real) element" where
  "table_override =
     \<lparr>is_Dataset = True, gridded = False, kdims = [''X'', ''Y''], vdims = [''V''],
      xcol = [''A'', ''A'', ''B''], ycol = [1, 1, 2], vcols = [[NaN, Val 5, Val 7]]\<rparr>"



text \<open>A gridded dataset with three key dimensions, and one with two dimensions in all.\<close>

definition gridded_three_keys :: "(string, int, real) element" where
  "gridded_three_keys =
     \<lparr>is_Dataset = True, gridded = True, kdims = [''X'', ''Y'', ''Z''], vdims = [''V''],
      xcol = [''A''], ycol = [1], vcols = [[Val 0], [Val 5]]\<rparr>"

definition gridded_two_dims :: "(string, int, real) element" where
  "gridded_two_dims =
     \<lparr>is_Dataset = True, gridded = True, kdims = [''X''], vdims = [''V''],
      xcol = [''A''], ycol = [1], vcols = []\<rparr>"

text \<open>Tables that are not gridded: three key dimensions; one key and one value dimension.\<close>

definition table_three_keys :: "(string, int, real) element" where
  "table_three_keys =
     \<lparr>is_Dataset = True, gridded = False, kdims = [''X'', ''Y'', ''Z''], vdims = [''V''],
      xcol = [''A''], ycol = [1], vcols = [[Val 0], [Val 5]]\<rparr>"

definition table_two_dims :: "(string, int, real) element" where
  "table_two_dims =
     \<lparr>is_Dataset = True, gridded = False, kdims = [''X''], vdims = [''V''],
      xcol = [''A''], ycol = [1], vcols = []\<rparr>"

section \<open>Auxiliary facts\<close>

subsection \<open>Unique values and the cross product\<close>

lemma set_unique: "set (unique xs) = set xs"
  by (induction xs rule: unique.induct) auto

lemma distinct_unique: "distinct (unique xs)"
  by (induction xs rule: unique.induct) (auto simp: set_unique)

lemma unique_append_covered:
  "distinct xs \<Longrightarrow> set ys \<subseteq> set xs \<Longrightarrow> unique (xs @ ys) = xs"
proof (induction xs arbitrary: ys)
  case Nil
  then show ?case by simp
next
  case (Cons x xs)
  have "filter (\<lambda>y. y \<noteq> x) xs = xs"
    using Cons.prems(1) by (auto intro: filter_True)
  moreover have "set (filter (\<lambda>y. y \<noteq> x) ys) \<subseteq> set xs"
    using Cons.prems(2) by auto
  ultimately show ?case
    using Cons.IH [of "filter (\<lambda>y. y \<noteq> x) ys"] Cons.prems(1) by simp
qed

lemma zip_cartesian_product:
  "cartesian_product ks d1 = (ys, xs) \<Longrightarrow> zip xs ys = cross d1 ks"
proof -
  have "zip (concat (map (\<lambda>a. d1) ks)) (concat (map (\<lambda>a. map (\<lambda>b. a) d1) ks)) = cross d1 ks"
    by (induction ks) (simp_all add: cross_def zip_map2 zip_same_conv_map)
  then show "cartesian_product ks d1 = (ys, xs) \<Longrightarrow> zip xs ys = cross d1 ks"
    by (auto simp: cartesian_product_def)
qed

lemma length_cartesian_product:
  "cartesian_product ks d1 = (ys, xs) \<Longrightarrow>
     length xs = length ks * length d1 \<and> length ys = length ks * length d1"
proof -
  have "length (concat (map (\<lambda>a. d1) ks)) = length ks * length d1"
    by (induction ks) simp_all
  moreover have "length (concat (map (\<lambda>a. map (\<lambda>b. a) d1) ks)) = length ks * length d1"
    by (induction ks) simp_all
  ultimately show "cartesian_product ks d1 = (ys, xs) \<Longrightarrow>
     length xs = length ks * length d1 \<and> length ys = length ks * length d1"
    by (auto simp: cartesian_product_def)
qed

lemma length_cross: "length (cross d1 ks) = length ks * length d1"
  by (induction ks) (simp_all add: cross_def)

lemma set_cross: "set (cross d1 ks) = set d1 \<times> set ks"
  by (auto simp: cross_def)

lemma distinct_cross: "distinct d1 \<Longrightarrow> distinct ks \<Longrightarrow> distinct (cross d1 ks)"
proof (induction ks)
  case Nil
  then show ?case by (simp add: cross_def)
next
  case (Cons y ks)
  have "distinct (map (\<lambda>x. (x, y)) d1)"
    using Cons.prems(1) by (simp add: distinct_map inj_on_def)
  moreover have "set (map (\<lambda>x. (x, y)) d1) \<inter> set (cross d1 ks) = {}"
    using Cons.prems(2) by (auto simp: set_cross)
  moreover have "distinct (cross d1 ks)"
    using Cons by simp
  ultimately show ?case
    by (simp add: cross_def)
qed

subsection \<open>The reducer and the values of a coordinate pair\<close>

lemma reduce_fn_skip_nan: "list_all is_nan ns \<Longrightarrow> reduce_fn (ns @ vs) = reduce_fn vs"
  by (induction ns) simp_all

lemma reduce_fn_all_nan: "list_all is_nan vs \<Longrightarrow> reduce_fn vs = NaN"
  by (induction vs) simp_all

lemma group_values_append:
  "length ks1 = length c1 \<Longrightarrow>
     group_values (ks1 @ ks2) (c1 @ c2) k = group_values ks1 c1 k @ group_values ks2 c2 k"
  by (simp add: group_values_def)

lemma group_values_nan: "list_all is_nan (group_values ks (replicate n NaN) k)"
  by (auto simp: group_values_def list_all_iff is_nan_def dest!: set_zip_rightD)

lemma group_values_absent: "k \<notin> set keys \<Longrightarrow> group_values keys col k = []"
  by (auto simp: group_values_def filter_empty_conv dest: set_zip_leftD)

lemma group_values_distinct:
  "distinct keys \<Longrightarrow> i < length keys \<Longrightarrow> length col = length keys \<Longrightarrow>
     group_values keys col (keys ! i) = [col ! i]"
proof (induction keys arbitrary: col i)
  case Nil
  then show ?case by simp
next
  case (Cons k keys)
  then obtain v col' where col: "col = v # col'"
    by (cases col) auto
  show ?case
  proof (cases i)
    case 0
    have "group_values keys col' k = []"
      using Cons.prems(1) by (intro group_values_absent) simp
    then show ?thesis
      using 0 col by (simp add: group_values_def)
  next
    case (Suc i')
    then have "keys ! i' \<noteq> k"
      using Cons.prems(1,2) by auto
    moreover have "group_values keys col' (keys ! i') = [col' ! i']"
      using Cons.prems Suc col by (intro Cons.IH) auto
    ultimately show ?thesis
      using Suc col by (simp add: group_values_def)
  qed
qed

lemma reduce_fn_group_values_first:
  "i < length keys \<Longrightarrow> length col = length keys \<Longrightarrow> \<not> is_nan (col ! i) \<Longrightarrow>
     (\<forall>i'<i. keys ! i' = keys ! i \<longrightarrow> is_nan (col ! i')) \<Longrightarrow>
     reduce_fn (group_values keys col (keys ! i)) = col ! i"
proof (induction keys arbitrary: col i)
  case Nil
  then show ?case by simp
next
  case (Cons k keys)
  then obtain v col' where col: "col = v # col'"
    by (cases col) auto
  show ?case
  proof (cases i)
    case 0
    then show ?thesis
      using Cons.prems(3) col by (simp add: group_values_def)
  next
    case (Suc n)
    have ih: "reduce_fn (group_values keys col' (keys ! n)) = col' ! n"
    proof (rule Cons.IH)
      show "n < length keys" "length col' = length keys" "\<not> is_nan (col' ! n)"
        using Cons.prems(1,2,3) Suc col by simp_all
      show "\<forall>i'<n. keys ! i' = keys ! n \<longrightarrow> is_nan (col' ! i')"
      proof (intro allI impI)
        fix i' assume "i' < n" "keys ! i' = keys ! n"
        then have "Suc i' < i" "(k # keys) ! Suc i' = (k # keys) ! i"
          using Suc by simp_all
        then have "is_nan (col ! Suc i')"
          using Cons.prems(4) by blast
        then show "is_nan (col' ! i')"
          using col by simp
      qed
    qed
    show ?thesis
    proof (cases "k = keys ! n")
      case True
      have "is_nan (col ! 0)"
        using Cons.prems(4) Suc True by auto
      then have "is_nan v"
        using col by simp
      then show ?thesis
        using True Suc col ih by (simp add: group_values_def)
    next
      case False
      then show ?thesis
        using Suc col ih by (simp add: group_values_def)
    qed
  qed
qed

subsection \<open>Reshaping\<close>

lemma rows_of_concat:
  "\<forall>xs \<in> set xss. length xs = c \<Longrightarrow>
     map (\<lambda>i. take c (drop (i * c) (concat xss))) [0..<length xss] = xss"
proof (induction xss)
  case Nil
  then show ?case by simp
next
  case (Cons xs xss)
  have "map (\<lambda>i. take c (drop (i * c) (concat (xs # xss)))) [0..<length (xs # xss)]
        = take c (xs @ concat xss)
          # map (\<lambda>i. take c (drop (Suc i * c) (xs @ concat xss))) [0..<length xss]"
    by (simp add: upt_conv_Cons map_Suc_upt [symmetric] del: upt_Suc)
  also have "take c (xs @ concat xss) = xs"
    using Cons.prems by simp
  also have "map (\<lambda>i. take c (drop (Suc i * c) (xs @ concat xss))) [0..<length xss]
             = map (\<lambda>i. take c (drop (i * c) (concat xss))) [0..<length xss]"
    using Cons.prems by simp
  also have "\<dots> = xss"
    using Cons by simp
  finally show ?case .
qed

lemma reshape_cross:
  "reshape (map f (cross d1 ks)) (length ks, length d1)
     = Inr (map (\<lambda>y. map (\<lambda>x. f (x, y)) d1) ks)"
proof -
  let ?xss = "map (\<lambda>y. map (\<lambda>x. f (x, y)) d1) ks"
  have c: "map f (cross d1 ks) = concat ?xss"
    by (simp add: cross_def map_concat comp_def)
  have "map (\<lambda>i. take (length d1) (drop (i * length d1) (concat ?xss))) [0..<length ?xss] = ?xss"
    by (rule rows_of_concat) auto
  then show ?thesis
    by (simp add: reshape_def c [symmetric] length_cross)
qed

lemma reshape_all_map:
  "(\<And>col. col \<in> set cols \<Longrightarrow> reshape (h col) shape = Inr (h' col)) \<Longrightarrow>
     reshape_all (map h cols) shape = Inr (map h' cols)"
  by (induction cols) simp_all

subsection \<open>The loop over the groups\<close>




subsection \<open>The dense table, the aggregation and the grid\<close>

lemma dense_data_result:
  assumes lk: "length ks = length (unique (ycol obj))"
  shows "dense_data obj ks =
           Inr \<lparr>is_Dataset = True, gridded = False, kdims = kdims obj, vdims = vdims obj,
                xcol = map fst (cross (unique (xcol obj)) ks),
                ycol = map snd (cross (unique (xcol obj)) ks),
                vcols = map (\<lambda>vdim. replicate (length ks * length (unique (xcol obj))) NaN)
                          (drop 2 (dimensions obj))\<rparr>"
proof -
  obtain ys xs where cp: "cartesian_product ks (unique (xcol obj)) = (ys, xs)"
    by (cases "cartesian_product ks (unique (xcol obj))")
  have l: "length xs = length ks * length (unique (xcol obj))"
          "length ys = length ks * length (unique (xcol obj))"
    using length_cartesian_product [OF cp] by simp_all
  have z: "zip xs ys = cross (unique (xcol obj)) ks"
    by (rule zip_cartesian_product [OF cp])
  have "map fst (zip xs ys) = xs" "map snd (zip xs ys) = ys"
    using l by simp_all
  then have xs: "xs = map fst (cross (unique (xcol obj)) ks)"
    and ys: "ys = map snd (cross (unique (xcol obj)) ks)"
    using z by simp_all
  have "dense_data obj ks =
          Dataset (kdims obj) (vdims obj) xs ys
            (map (\<lambda>vdim. replicate (length ks * length (unique (xcol obj))) NaN)
               (drop 2 (dimensions obj)))"
    by (simp add: dense_data_def Let_def cp lk)
  also have "\<dots> = Inr \<lparr>is_Dataset = True, gridded = False, kdims = kdims obj,
                vdims = vdims obj, xcol = xs, ycol = ys,
                vcols = map (\<lambda>vdim. replicate (length ks * length (unique (xcol obj))) NaN)
                          (drop 2 (dimensions obj))\<rparr>"
    by (simp add: Dataset_def l list_all_iff)
  finally show ?thesis
    by (simp only: xs ys)
qed

lemma map2_append_replicate:
  "map2 (@) (replicate (length cs) a) cs = map (\<lambda>c. a @ c) cs"
  by (induction cs) simp_all

lemma aggregate_concat_data:
  assumes len: "length (ycol obj) = length (xcol obj)"
    and cols: "list_all (\<lambda>c. length c = length (xcol obj)) (vcols obj)"
    and dK: "distinct K" and cover: "set (zip (xcol obj) (ycol obj)) \<subseteq> set K"
    and m: "length nulls = length (vcols obj)"
    and nulls: "list_all (\<lambda>c. c = replicate (length K) NaN) nulls"
  shows "vcols (aggregate reduce_fn
            (concat_data \<lparr>is_Dataset = True, gridded = False, kdims = kd, vdims = vd,
                          xcol = map fst K, ycol = map snd K, vcols = nulls\<rparr> obj))
         = map (\<lambda>col. map (\<lambda>k. reduce_fn (group_values (zip (xcol obj) (ycol obj)) col k)) K)
             (vcols obj)"
proof -
  let ?R = "zip (xcol obj) (ycol obj)"
  let ?n = "length K"
  have keys: "zip (map fst K @ xcol obj) (map snd K @ ycol obj) = K @ ?R"
    by (simp add: zip_map_fst_snd)
  have uk: "unique (K @ ?R) = K"
    by (rule unique_append_covered [OF dK cover])
  have nu: "nulls = replicate (length (vcols obj)) (replicate ?n NaN)"
    using m nulls by (auto simp: list_all_iff intro!: replicate_eqI)
  have cc: "map2 (@) nulls (vcols obj) = map (\<lambda>c. replicate ?n NaN @ c) (vcols obj)"
    unfolding nu by (rule map2_append_replicate)
  have red: "reduce_fn (group_values (K @ ?R) (replicate ?n NaN @ c) k)
             = reduce_fn (group_values ?R c k)" for c k
    by (simp add: group_values_append reduce_fn_skip_nan group_values_nan)
  show ?thesis
    by (simp add: aggregate_def concat_data_def concatenate_def Let_def keys uk cc red
        comp_def)
qed

lemma aggregate_keys:
  assumes dK: "distinct K" and cover: "set (zip (xcol obj) (ycol obj)) \<subseteq> set K"
  shows "xcol (aggregate fn
            (concat_data \<lparr>is_Dataset = True, gridded = False, kdims = kd, vdims = vd,
                          xcol = map fst K, ycol = map snd K, vcols = nulls\<rparr> obj)) = map fst K"
    and "ycol (aggregate fn
            (concat_data \<lparr>is_Dataset = True, gridded = False, kdims = kd, vdims = vd,
                          xcol = map fst K, ycol = map snd K, vcols = nulls\<rparr> obj)) = map snd K"
proof -
  have keys: "zip (map fst K @ xcol obj) (map snd K @ ycol obj) = K @ zip (xcol obj) (ycol obj)"
    by (simp add: zip_map_fst_snd)
  have uk: "unique (K @ zip (xcol obj) (ycol obj)) = K"
    by (rule unique_append_covered [OF dK cover])
  show "xcol (aggregate fn
            (concat_data \<lparr>is_Dataset = True, gridded = False, kdims = kd, vdims = vd,
                          xcol = map fst K, ycol = map snd K, vcols = nulls\<rparr> obj)) = map fst K"
    and "ycol (aggregate fn
            (concat_data \<lparr>is_Dataset = True, gridded = False, kdims = kd, vdims = vd,
                          xcol = map fst K, ycol = map snd K, vcols = nulls\<rparr> obj)) = map snd K"
    by (simp_all add: aggregate_def concat_data_def concatenate_def Let_def keys uk)
qed

text \<open>A Y order whose length is not the number of unique Y values leaves the dense table
  with coordinate columns and value columns of different lengths.\<close>

lemma dense_data_wrong_length:
  assumes "length ks \<noteq> length (unique (ycol obj))"
    and "xcol obj \<noteq> []" and "drop 2 (dimensions obj) \<noteq> []"
  shows "dense_data obj ks = Inl DataError"
proof -
  obtain ys xs where cp: "cartesian_product ks (unique (xcol obj)) = (ys, xs)"
    by (cases "cartesian_product ks (unique (xcol obj))")
  have l: "length xs = length ks * length (unique (xcol obj))"
    using length_cartesian_product [OF cp] by simp
  have "unique (xcol obj) \<noteq> []"
    using assms(2) by (cases "xcol obj") simp_all
  then have "length (unique (ycol obj)) * length (unique (xcol obj)) \<noteq> length xs"
    using assms(1) l by simp
  moreover obtain d ds where "drop 2 (dimensions obj) = d # ds"
    using assms(3) by (cases "drop 2 (dimensions obj)") auto
  ultimately show ?thesis
    by (simp add: dense_data_def Let_def cp Dataset_def)
qed

lemma aggregate2d_result:
  assumes len: "length (ycol obj) = length (xcol obj)"
    and cols: "list_all (\<lambda>c. length c = length (xcol obj)) (vcols obj)"
    and nv: "length (vcols obj) = length (dimensions obj) - 2"
    and yo: "y_order obj = Inr ks" and dk: "distinct ks" and sk: "set ks = set (ycol obj)"
  shows "aggregate2d obj = Inr (Gridded (grid_of obj ks))"
proof -
  let ?d1 = "unique (xcol obj)"
  let ?K = "cross ?d1 ks"
  let ?nulls = "map (\<lambda>vdim. replicate (length ks * length ?d1) NaN) (drop 2 (dimensions obj))"
  let ?dense = "\<lparr>is_Dataset = True, gridded = False, kdims = kdims obj, vdims = vdims obj,
                xcol = map fst ?K, ycol = map snd ?K, vcols = ?nulls\<rparr>"
  let ?agg = "aggregate reduce_fn (concat_data ?dense obj)"
  have "card (set ks) = card (set (unique (ycol obj)))"
    by (simp add: sk set_unique)
  then have lk: "length ks = length (unique (ycol obj))"
    using dk distinct_unique [of "ycol obj"] by (simp add: distinct_card)
  have dense: "dense_data obj ks = Inr ?dense"
    by (rule dense_data_result [OF lk])
  have dK: "distinct ?K"
    by (rule distinct_cross [OF distinct_unique dk])
  have cover: "set (zip (xcol obj) (ycol obj)) \<subseteq> set ?K"
    by (auto simp: set_cross set_unique sk dest: set_zip_leftD set_zip_rightD)
  have vc: "vcols ?agg =
      map (\<lambda>col. map (\<lambda>k. reduce_fn (group_values (zip (xcol obj) (ycol obj)) col k)) ?K)
        (vcols obj)"
    by (rule aggregate_concat_data [OF len cols dK cover])
       (simp_all add: nv list_all_iff length_cross)
  have rs: "reshape_all (vcols ?agg) (length ks, length ?d1)
            = Inr (map (\<lambda>col. map (\<lambda>y. map (\<lambda>x. reduce_fn (pair_values obj col x y)) ?d1) ks)
                     (vcols obj))"
    unfolding vc by (rule reshape_all_map) (simp add: reshape_cross pair_values_def)
  have kd: "kdims ?agg = take 2 (dimensions obj)" "vdims ?agg = drop 2 (dimensions obj)"
    by (simp_all add: aggregate_def concat_data_def concatenate_def Let_def dimensions_def)
  show ?thesis
    unfolding aggregate2d_def Let_def yo
    by (simp only: sum.case dense lk [symmetric] rs kd grid_of_def)
qed

lemma process_valid:
  assumes v: "valid_input obj"
    and yo: "y_order obj = Inr ks" and dk: "distinct ks" and sk: "set ks = set (ycol obj)"
  shows "process obj = Inr (Gridded (grid_of obj ks))"
proof -
  have k: "length (kdims obj) = 2" "1 \<le> length (vdims obj)" "\<not> gridded obj"
    using v by (simp_all add: valid_input_def)
  have "\<not> 2 < ndims obj"
    using k by (simp add: ndims_def)
  moreover have "\<not> length (dimensions obj) < 3"
    unfolding dimensions_def length_append using k by arith
  ultimately have "process obj = aggregate2d obj"
    using k by (simp add: process_def)
  also have "\<dots> = Inr (Gridded (grid_of obj ks))"
    using v by (intro aggregate2d_result [OF _ _ _ yo dk sk])
               (simp_all add: valid_input_def dimensions_def)
  finally show ?thesis .
qed

section \<open>The claims\<close>

text \<open>
  C1 (amended): for every valid input dataset (exactly two key dimensions, at least one
  value dimension, not gridded) for which the Y order computed at lines 106-123 lists every
  unique Y value exactly once, the operation returns a gridded dataset over the unique X
  values and that Y order in which every coordinate pair of an input row occurs; the cell of
  a coordinate pair holds, for each value dimension, the first value that is not NaN among
  the rows with that pair, in row order (NaN when there is none). So a pair that occurs in no
  input row holds NaN, and when no pair occurs in two rows the cell of a row's pair holds
  the value of that row.
\<close>

theorem grid_holds_first_non_null_or_nan:
  assumes v: "valid_input obj"
    and yo: "y_order obj = Inr ks" and dk: "distinct ks" and sk: "set ks = set (ycol obj)"
  shows "\<exists>g. process obj = Inr (Gridded g) \<and>
           xcoords g = unique (xcol obj) \<and> ycoords g = ks \<and>
           (\<forall>i<length (xcol obj). \<exists>r<length ks. \<exists>c<length (xcoords g).
              xcoords g ! c = xcol obj ! i \<and> ks ! r = ycol obj ! i) \<and>
           (\<forall>j<length (vcols obj). \<forall>r<length ks. \<forall>c<length (xcoords g).
              arrays g ! j ! r ! c
                = reduce_fn (pair_values obj (vcols obj ! j) (xcoords g ! c) (ks ! r)) \<and>
              ((xcoords g ! c, ks ! r) \<notin> set (zip (xcol obj) (ycol obj)) \<longrightarrow>
                 arrays g ! j ! r ! c = NaN) \<and>
              (distinct (zip (xcol obj) (ycol obj)) \<longrightarrow>
                 (\<forall>i<length (xcol obj).
                    xcol obj ! i = xcoords g ! c \<and> ycol obj ! i = ks ! r \<longrightarrow>
                    arrays g ! j ! r ! c = vcols obj ! j ! i)))"
proof -
  let ?g = "grid_of obj ks"
  let ?d1 = "unique (xcol obj)"
  let ?R = "zip (xcol obj) (ycol obj)"
  have len: "length (ycol obj) = length (xcol obj)"
    and cols: "\<And>j. j < length (vcols obj) \<Longrightarrow> length (vcols obj ! j) = length (xcol obj)"
    using v by (simp_all add: valid_input_def list_all_length)
  have p: "process obj = Inr (Gridded ?g)"
    by (rule process_valid [OF v yo dk sk])
  have xc: "xcoords ?g = ?d1" and yc: "ycoords ?g = ks"
    by (simp_all add: grid_of_def)
  have cover: "\<exists>r<length ks. \<exists>c<length ?d1. ?d1 ! c = xcol obj ! i \<and> ks ! r = ycol obj ! i"
    if i: "i < length (xcol obj)" for i
  proof -
    have "ycol obj ! i \<in> set ks"
      using i len sk by simp
    then obtain r where "r < length ks" "ks ! r = ycol obj ! i"
      by (auto simp: in_set_conv_nth)
    moreover have "xcol obj ! i \<in> set ?d1"
      using i by (simp add: set_unique)
    then obtain c where "c < length ?d1" "?d1 ! c = xcol obj ! i"
      by (auto simp: in_set_conv_nth)
    ultimately show ?thesis
      by blast
  qed
  have cell: "arrays ?g ! j ! r ! c = reduce_fn (pair_values obj (vcols obj ! j) (?d1 ! c) (ks ! r))"
    if "j < length (vcols obj)" "r < length ks" "c < length ?d1" for j r c
    using that by (simp add: grid_of_def)
  have absent: "reduce_fn (pair_values obj col x y) = NaN" if "(x, y) \<notin> set ?R" for col x y
    using that by (simp add: pair_values_def group_values_absent)
  have single: "reduce_fn (pair_values obj (vcols obj ! j) (xcol obj ! i) (ycol obj ! i))
                  = vcols obj ! j ! i"
    if "distinct ?R" "i < length (xcol obj)" "j < length (vcols obj)" for i j
  proof -
    have "group_values ?R (vcols obj ! j) (?R ! i) = [vcols obj ! j ! i]"
      using that len cols [of j] by (intro group_values_distinct) simp_all
    moreover have "?R ! i = (xcol obj ! i, ycol obj ! i)"
      using that len by simp
    ultimately have "pair_values obj (vcols obj ! j) (xcol obj ! i) (ycol obj ! i)
                       = [vcols obj ! j ! i]"
      by (simp add: pair_values_def)
    then show ?thesis
      by (simp add: is_nan_def split: val.splits)
  qed
  have "(\<forall>i<length (xcol obj). \<exists>r<length ks. \<exists>c<length (xcoords ?g).
              xcoords ?g ! c = xcol obj ! i \<and> ks ! r = ycol obj ! i)"
    unfolding xc using cover by blast
  moreover have "\<forall>j<length (vcols obj). \<forall>r<length ks. \<forall>c<length (xcoords ?g).
              arrays ?g ! j ! r ! c
                = reduce_fn (pair_values obj (vcols obj ! j) (xcoords ?g ! c) (ks ! r)) \<and>
              ((xcoords ?g ! c, ks ! r) \<notin> set ?R \<longrightarrow> arrays ?g ! j ! r ! c = NaN) \<and>
              (distinct ?R \<longrightarrow>
                 (\<forall>i<length (xcol obj).
                    xcol obj ! i = xcoords ?g ! c \<and> ycol obj ! i = ks ! r \<longrightarrow>
                    arrays ?g ! j ! r ! c = vcols obj ! j ! i))"
    unfolding xc
  proof (intro allI impI conjI)
    fix j r c
    assume b: "j < length (vcols obj)" "r < length ks" "c < length ?d1"
    show "arrays ?g ! j ! r ! c = reduce_fn (pair_values obj (vcols obj ! j) (?d1 ! c) (ks ! r))"
      by (rule cell [OF b])
    show "arrays ?g ! j ! r ! c = NaN" if "(?d1 ! c, ks ! r) \<notin> set ?R"
      using cell [OF b] absent [OF that] by simp
    show "arrays ?g ! j ! r ! c = vcols obj ! j ! i"
      if "distinct ?R" "i < length (xcol obj)"
        "xcol obj ! i = ?d1 ! c \<and> ycol obj ! i = ks ! r" for i
      using cell [OF b] single [OF that(1,2) b(1)] that(3) by simp
  qed
  ultimately show ?thesis
    using p xc yc by blast
qed

text \<open>C1, witness: the table of the docstring, whose Y order comes from the topological
  branch.\<close>

theorem grid_holds_first_non_null_or_nan_witness:
  "valid_input table_country \<and> y_order table_country = Inr [2000, 2005] \<and>
   distinct [2000, 2005 :: int] \<and> set [2000, 2005] = set (ycol table_country) \<and>
   distinct (zip (xcol table_country) (ycol table_country)) \<and>
   (''UK'', 2000) \<notin> set (zip (xcol table_country) (ycol table_country)) \<and>
   (case process table_country of
      Inr (Gridded g) \<Rightarrow>
        xcoords g = [''USA'', ''UK''] \<and> arrays g ! 0 ! 0 ! 1 = NaN \<and>
        arrays g ! 0 ! 0 ! 0 = Val 282.2
    | _ \<Rightarrow> False)"
proof -
  have h1: "valid_input table_country"
    by code_simp
  have h2: "y_order table_country = Inr [2000, 2005]"
    by code_simp
  have h3: "distinct [2000, 2005 :: int]"
    by simp
  have h4: "set [2000, 2005] = set (ycol table_country)"
    by (simp add: table_country_def)
  have h5: "distinct (zip (xcol table_country) (ycol table_country))"
    by (simp add: table_country_def)
  have h6: "(''UK'', 2000) \<notin> set (zip (xcol table_country) (ycol table_country))"
    by (simp add: table_country_def)
  have u: "unique (xcol table_country) = [''USA'', ''UK'']"
    by code_simp
  from grid_holds_first_non_null_or_nan [OF h1 h2 h3 h4]
  obtain g where p: "process table_country = Inr (Gridded g)"
    and xc: "xcoords g = unique (xcol table_country)"
    and cells: "\<forall>j<length (vcols table_country). \<forall>r<length [2000, 2005 :: int].
                  \<forall>c<length (xcoords g).
       arrays g ! j ! r ! c
         = reduce_fn (pair_values table_country (vcols table_country ! j) (xcoords g ! c)
                        ([2000, 2005] ! r)) \<and>
       ((xcoords g ! c, [2000, 2005] ! r)
          \<notin> set (zip (xcol table_country) (ycol table_country)) \<longrightarrow>
          arrays g ! j ! r ! c = NaN) \<and>
       (distinct (zip (xcol table_country) (ycol table_country)) \<longrightarrow>
          (\<forall>i<length (xcol table_country).
             xcol table_country ! i = xcoords g ! c \<and>
             ycol table_country ! i = [2000, 2005] ! r \<longrightarrow>
             arrays g ! j ! r ! c = vcols table_country ! j ! i))"
    by blast
  have xg: "xcoords g = [''USA'', ''UK'']"
    using xc u by simp
  have j: "0 < length (vcols table_country)" and r: "0 < length [2000, 2005 :: int]"
    and c0: "0 < length (xcoords g)" and c1: "1 < length (xcoords g)"
    by (simp_all add: table_country_def xg)
  have "(xcoords g ! 1, [2000, 2005] ! 0)
          \<notin> set (zip (xcol table_country) (ycol table_country))"
    using h6 by (simp add: xg)
  then have a: "arrays g ! 0 ! 0 ! 1 = NaN"
    using cells j r c1 by blast
  have "xcol table_country ! 0 = xcoords g ! 0 \<and> ycol table_country ! 0 = [2000, 2005] ! 0"
    by (simp add: xg table_country_def)
  moreover have "0 < length (xcol table_country)"
    by (simp add: table_country_def)
  ultimately have "arrays g ! 0 ! 0 ! 0 = vcols table_country ! 0 ! 0"
    using cells j r c0 h5 by blast
  then have b: "arrays g ! 0 ! 0 ! 0 = Val 282.2"
    by (simp add: table_country_def)
  show ?thesis
    using h1 h2 h3 h4 h5 h6 p xg a b by simp
qed

text \<open>
  C1 as stated fails: the rows (A, 1, 5) and (A, 1, 7) share a coordinate pair, and the grid
  holds 5 at (A, 1), not the value 7 of the second row.
\<close>

theorem duplicate_pair_counterexample:
  "valid_input table_duplicate \<and>
   xcol table_duplicate ! 1 = ''A'' \<and> ycol table_duplicate ! 1 = 1 \<and>
   vcols table_duplicate ! 0 ! 1 = Val 7 \<and>
   process table_duplicate =
     Inr (Gridded \<lparr>grid_kdims = [''X'', ''Y''], grid_vdims = [''V''],
                   xcoords = [''A''], ycoords = [1], arrays = [[[Val 5]]]\<rparr>)"
  by code_simp

text \<open>
  C2, evaluated at a failing input: the rows (A, 2), (A, 1), (B, 2), (B, 3) have two key
  dimensions and one value dimension and three unique Y values. The successor 1 of 2 is
  overwritten by 3, the chained topological order holds two Y values only, the dense table
  has four coordinate rows for value columns of six cells, and no grid is returned.
\<close>

theorem lost_y_value_no_grid:
  "valid_input table_two_successors \<and> length (vdims table_two_successors) = 1 \<and>
   unique (ycol table_two_successors) = [2, 1, 3] \<and>
   y_order table_two_successors = Inr [2, 3] \<and>
   process table_two_successors = Inl DataError"
  by code_simp

text \<open>
  C3, evaluated at a failing input: partition A observes 2 followed by 1 and partition B
  observes 2 followed by 3, an acyclic precedence with an unsorted partition. After the loop
  of lines 111-119 the graph holds the edge from 2 to 3 only: the edge from 2 to 1 has been
  overwritten.
\<close>

theorem successor_edge_overwritten:
  "valid_input table_two_successors \<and>
   groupby table_two_successors = [[2, 1], [2, 3]] \<and>
   fold group_step [[2, 1], [2, 3 :: int]] ([], True) = ([(2, [3])], False) \<and>
   ordering_loop table_two_successors = ([(2, [3])], False)"
  by code_simp




text \<open>
  C5: the reducer returns the first value of a sequence that is not NaN, and NaN when every
  value is NaN. For a valid input and a Y order that lists every unique Y value once, the
  dense table exists, its value columns hold NaN only, and line 134 puts its rows before the
  rows of the input. The aggregation of line 135 then has one row per coordinate pair of the
  dense table and holds there the reduction of the values of the input's rows with that
  pair: if row \<open>i\<close> of the input holds a value that is not NaN and every earlier row with
  the same coordinate pair holds NaN, the aggregated table holds the value of row \<open>i\<close> at
  that pair, although the NaN of the dense table comes first, and so does the grid that is
  returned when the Y order is the computed one.
\<close>

theorem reduce_fn_first_non_null:
  assumes v: "valid_input obj" and dk: "distinct ks" and sk: "set ks = set (ycol obj)"
  shows "(list_all is_nan pre \<and> \<not> is_nan w \<longrightarrow> reduce_fn (pre @ w # rest) = w) \<and>
         (list_all is_nan vs \<longrightarrow> reduce_fn vs = NaN) \<and>
         (\<exists>dense agg.
            dense_data obj ks = Inr dense \<and>
            agg = aggregate reduce_fn (concat_data dense obj) \<and>
            list_all (list_all is_nan) (vcols dense) \<and>
            xcol (concat_data dense obj) = xcol dense @ xcol obj \<and>
            ycol (concat_data dense obj) = ycol dense @ ycol obj \<and>
            xcol agg = xcol dense \<and> ycol agg = ycol dense \<and>
            (\<forall>j<length (vcols obj).
               vcols (concat_data dense obj) ! j = vcols dense ! j @ vcols obj ! j \<and>
               length (vcols dense ! j) = length (xcol dense) \<and>
               (\<forall>p<length (xcol agg).
                  vcols agg ! j ! p
                    = reduce_fn (pair_values obj (vcols obj ! j) (xcol agg ! p) (ycol agg ! p))) \<and>
               (\<forall>i<length (xcol obj).
                  \<not> is_nan (vcols obj ! j ! i) \<and>
                  (\<forall>i'<i. xcol obj ! i' = xcol obj ! i \<and> ycol obj ! i' = ycol obj ! i \<longrightarrow>
                           is_nan (vcols obj ! j ! i')) \<longrightarrow>
                  (\<forall>p<length (xcol agg).
                     xcol agg ! p = xcol obj ! i \<and> ycol agg ! p = ycol obj ! i \<longrightarrow>
                     vcols agg ! j ! p = vcols obj ! j ! i) \<and>
                  (y_order obj = Inr ks \<longrightarrow>
                     (\<exists>g. process obj = Inr (Gridded g) \<and>
                        xcoords g = unique (xcol obj) \<and> ycoords g = ks \<and>
                        (\<forall>r<length ks. \<forall>c<length (xcoords g).
                           xcoords g ! c = xcol obj ! i \<and> ks ! r = ycol obj ! i \<longrightarrow>
                           arrays g ! j ! r ! c = vcols obj ! j ! i))))))"
proof (intro conjI impI)
  assume "list_all is_nan pre \<and> \<not> is_nan w"
  then show "reduce_fn (pre @ w # rest) = w"
    by (simp add: reduce_fn_skip_nan)
next
  assume "list_all is_nan vs"
  then show "reduce_fn vs = NaN"
    by (rule reduce_fn_all_nan)
next
  let ?d1 = "unique (xcol obj)"
  let ?K = "cross ?d1 ks"
  let ?R = "zip (xcol obj) (ycol obj)"
  let ?n = "length ks * length ?d1"
  let ?nulls = "map (\<lambda>vdim. replicate ?n NaN) (drop 2 (dimensions obj))"
  let ?dense = "\<lparr>is_Dataset = True, gridded = False, kdims = kdims obj, vdims = vdims obj,
                xcol = map fst ?K, ycol = map snd ?K, vcols = ?nulls\<rparr>"
  let ?agg = "aggregate reduce_fn (concat_data ?dense obj)"
  have len: "length (ycol obj) = length (xcol obj)"
    and cols: "list_all (\<lambda>c. length c = length (xcol obj)) (vcols obj)"
    and nv: "length (vcols obj) = length (drop 2 (dimensions obj))"
    using v by (simp_all add: valid_input_def dimensions_def)
  have colj: "length (vcols obj ! j) = length (xcol obj)" if "j < length (vcols obj)" for j
    using cols that by (simp add: list_all_length)
  have "card (set ks) = card (set (unique (ycol obj)))"
    by (simp add: sk set_unique)
  then have lk: "length ks = length (unique (ycol obj))"
    using dk distinct_unique [of "ycol obj"] by (simp add: distinct_card)
  have dense: "dense_data obj ks = Inr ?dense"
    by (rule dense_data_result [OF lk])
  have dK: "distinct ?K"
    by (rule distinct_cross [OF distinct_unique dk])
  have cover: "set ?R \<subseteq> set ?K"
    by (auto simp: set_cross set_unique sk dest: set_zip_leftD set_zip_rightD)
  have ax: "xcol ?agg = map fst ?K" and ay: "ycol ?agg = map snd ?K"
    by (rule aggregate_keys [OF dK cover])+
  have av: "vcols ?agg = map (\<lambda>col. map (\<lambda>k. reduce_fn (group_values ?R col k)) ?K) (vcols obj)"
    by (rule aggregate_concat_data [OF len cols dK cover])
       (simp_all add: nv list_all_iff length_cross)
  have nan: "list_all (list_all is_nan) (vcols ?dense)"
    by (simp add: list_all_iff is_nan_def)
  have cell: "vcols ?agg ! j ! p
                = reduce_fn (pair_values obj (vcols obj ! j) (xcol ?agg ! p) (ycol ?agg ! p))"
    if "j < length (vcols obj)" "p < length (xcol ?agg)" for j p
    using that by (simp add: av ax ay pair_values_def)
  have first: "reduce_fn (pair_values obj (vcols obj ! j) (xcol obj ! i) (ycol obj ! i))
                 = vcols obj ! j ! i"
    if j: "j < length (vcols obj)" and i: "i < length (xcol obj)"
      and nn: "\<not> is_nan (vcols obj ! j ! i)"
      and before: "\<forall>i'<i. xcol obj ! i' = xcol obj ! i \<and> ycol obj ! i' = ycol obj ! i \<longrightarrow>
                           is_nan (vcols obj ! j ! i')" for i j
  proof -
    have "reduce_fn (group_values ?R (vcols obj ! j) (?R ! i)) = vcols obj ! j ! i"
    proof (rule reduce_fn_group_values_first)
      show "i < length ?R" "length (vcols obj ! j) = length ?R"
        using i len colj [OF j] by simp_all
      show "\<not> is_nan (vcols obj ! j ! i)"
        by (rule nn)
      show "\<forall>i'<i. ?R ! i' = ?R ! i \<longrightarrow> is_nan (vcols obj ! j ! i')"
        using before i len by simp
    qed
    moreover have "?R ! i = (xcol obj ! i, ycol obj ! i)"
      using i len by simp
    ultimately show ?thesis
      by (simp add: pair_values_def)
  qed
  have grid: "\<exists>g. process obj = Inr (Gridded g) \<and>
                xcoords g = unique (xcol obj) \<and> ycoords g = ks \<and>
                (\<forall>r<length ks. \<forall>c<length (xcoords g).
                   xcoords g ! c = xcol obj ! i \<and> ks ! r = ycol obj ! i \<longrightarrow>
                   arrays g ! j ! r ! c = vcols obj ! j ! i)"
    if j: "j < length (vcols obj)" and i: "i < length (xcol obj)"
      and nn: "\<not> is_nan (vcols obj ! j ! i)"
      and before: "\<forall>i'<i. xcol obj ! i' = xcol obj ! i \<and> ycol obj ! i' = ycol obj ! i \<longrightarrow>
                           is_nan (vcols obj ! j ! i')"
      and yo: "y_order obj = Inr ks" for i j
  proof -
    have p: "process obj = Inr (Gridded (grid_of obj ks))"
      by (rule process_valid [OF v yo dk sk])
    have "arrays (grid_of obj ks) ! j ! r ! c = vcols obj ! j ! i"
      if "r < length ks" "c < length ?d1" "?d1 ! c = xcol obj ! i \<and> ks ! r = ycol obj ! i"
      for r c
      using that j first [OF j i nn before] by (simp add: grid_of_def)
    then show ?thesis
      using p by (intro exI [of _ "grid_of obj ks"]) (simp add: grid_of_def)
  qed
  have body: "\<forall>j<length (vcols obj).
               vcols (concat_data ?dense obj) ! j = vcols ?dense ! j @ vcols obj ! j \<and>
               length (vcols ?dense ! j) = length (xcol ?dense) \<and>
               (\<forall>p<length (xcol ?agg).
                  vcols ?agg ! j ! p
                    = reduce_fn (pair_values obj (vcols obj ! j) (xcol ?agg ! p) (ycol ?agg ! p))) \<and>
               (\<forall>i<length (xcol obj).
                  \<not> is_nan (vcols obj ! j ! i) \<and>
                  (\<forall>i'<i. xcol obj ! i' = xcol obj ! i \<and> ycol obj ! i' = ycol obj ! i \<longrightarrow>
                           is_nan (vcols obj ! j ! i')) \<longrightarrow>
                  (\<forall>p<length (xcol ?agg).
                     xcol ?agg ! p = xcol obj ! i \<and> ycol ?agg ! p = ycol obj ! i \<longrightarrow>
                     vcols ?agg ! j ! p = vcols obj ! j ! i) \<and>
                  (y_order obj = Inr ks \<longrightarrow>
                     (\<exists>g. process obj = Inr (Gridded g) \<and>
                        xcoords g = unique (xcol obj) \<and> ycoords g = ks \<and>
                        (\<forall>r<length ks. \<forall>c<length (xcoords g).
                           xcoords g ! c = xcol obj ! i \<and> ks ! r = ycol obj ! i \<longrightarrow>
                           arrays g ! j ! r ! c = vcols obj ! j ! i))))"
  proof (intro allI impI conjI)
    fix j assume j: "j < length (vcols obj)"
    show "vcols (concat_data ?dense obj) ! j = vcols ?dense ! j @ vcols obj ! j"
      using j nv by (simp add: concat_data_def concatenate_def)
    show "length (vcols ?dense ! j) = length (xcol ?dense)"
      using j nv by (simp add: length_cross)
    show "vcols ?agg ! j ! p
            = reduce_fn (pair_values obj (vcols obj ! j) (xcol ?agg ! p) (ycol ?agg ! p))"
      if "p < length (xcol ?agg)" for p
      by (rule cell [OF j that])
    show "vcols ?agg ! j ! p = vcols obj ! j ! i"
      if "i < length (xcol obj)"
        and "\<not> is_nan (vcols obj ! j ! i) \<and>
             (\<forall>i'<i. xcol obj ! i' = xcol obj ! i \<and> ycol obj ! i' = ycol obj ! i \<longrightarrow>
                      is_nan (vcols obj ! j ! i'))"
        and "p < length (xcol ?agg)"
        and "xcol ?agg ! p = xcol obj ! i \<and> ycol ?agg ! p = ycol obj ! i" for i p
      using cell [OF j that(3)] first [OF j that(1)] that(2,4) by simp
    show "\<exists>g. process obj = Inr (Gridded g) \<and>
                xcoords g = unique (xcol obj) \<and> ycoords g = ks \<and>
                (\<forall>r<length ks. \<forall>c<length (xcoords g).
                   xcoords g ! c = xcol obj ! i \<and> ks ! r = ycol obj ! i \<longrightarrow>
                   arrays g ! j ! r ! c = vcols obj ! j ! i)"
      if "i < length (xcol obj)"
        and "\<not> is_nan (vcols obj ! j ! i) \<and>
             (\<forall>i'<i. xcol obj ! i' = xcol obj ! i \<and> ycol obj ! i' = ycol obj ! i \<longrightarrow>
                      is_nan (vcols obj ! j ! i'))"
        and "y_order obj = Inr ks" for i
      using grid [OF j that(1) _ _ that(3)] that(2) by blast
  qed
  have cc: "xcol (concat_data ?dense obj) = xcol ?dense @ xcol obj"
           "ycol (concat_data ?dense obj) = ycol ?dense @ ycol obj"
    by (simp_all add: concat_data_def concatenate_def)
  have axd: "xcol ?agg = xcol ?dense" "ycol ?agg = ycol ?dense"
    using ax ay by simp_all
  show "\<exists>dense agg.
            dense_data obj ks = Inr dense \<and>
            agg = aggregate reduce_fn (concat_data dense obj) \<and>
            list_all (list_all is_nan) (vcols dense) \<and>
            xcol (concat_data dense obj) = xcol dense @ xcol obj \<and>
            ycol (concat_data dense obj) = ycol dense @ ycol obj \<and>
            xcol agg = xcol dense \<and> ycol agg = ycol dense \<and>
            (\<forall>j<length (vcols obj).
               vcols (concat_data dense obj) ! j = vcols dense ! j @ vcols obj ! j \<and>
               length (vcols dense ! j) = length (xcol dense) \<and>
               (\<forall>p<length (xcol agg).
                  vcols agg ! j ! p
                    = reduce_fn (pair_values obj (vcols obj ! j) (xcol agg ! p) (ycol agg ! p))) \<and>
               (\<forall>i<length (xcol obj).
                  \<not> is_nan (vcols obj ! j ! i) \<and>
                  (\<forall>i'<i. xcol obj ! i' = xcol obj ! i \<and> ycol obj ! i' = ycol obj ! i \<longrightarrow>
                           is_nan (vcols obj ! j ! i')) \<longrightarrow>
                  (\<forall>p<length (xcol agg).
                     xcol agg ! p = xcol obj ! i \<and> ycol agg ! p = ycol obj ! i \<longrightarrow>
                     vcols agg ! j ! p = vcols obj ! j ! i) \<and>
                  (y_order obj = Inr ks \<longrightarrow>
                     (\<exists>g. process obj = Inr (Gridded g) \<and>
                        xcoords g = unique (xcol obj) \<and> ycoords g = ks \<and>
                        (\<forall>r<length ks. \<forall>c<length (xcoords g).
                           xcoords g ! c = xcol obj ! i \<and> ks ! r = ycol obj ! i \<longrightarrow>
                           arrays g ! j ! r ! c = vcols obj ! j ! i)))))"
    apply (rule exI [of _ ?dense])
    apply (rule exI [of _ ?agg])
    apply (intro conjI)
           apply (rule dense)
          apply (rule refl)
         apply (rule nan)
        apply (rule cc(1))
       apply (rule cc(2))
      apply (rule axd(1))
     apply (rule axd(2))
    apply (rule body)
    done
qed

text \<open>C5, witness: the pair (A, 1) holds NaN in the dense table and in the first row of
  the input, and 5 in the second row.\<close>

theorem reduce_fn_first_non_null_witness:
  "valid_input table_override \<and> distinct [1, 2 :: int] \<and>
   set [1, 2] = set (ycol table_override) \<and> y_order table_override = Inr [1, 2] \<and>
   list_all is_nan [NaN, NaN :: real val] \<and> \<not> is_nan (Val (3::real)) \<and>
   reduce_fn ([NaN, NaN] @ Val (3::real) # [Val 4]) = Val 3 \<and>
   reduce_fn [NaN, NaN :: real val] = NaN \<and>
   vcols table_override ! 0 ! 0 = NaN \<and> vcols table_override ! 0 ! 1 = Val 5 \<and>
   dense_data table_override [1, 2] =
     Inr \<lparr>is_Dataset = True, gridded = False, kdims = [''X'', ''Y''], vdims = [''V''],
          xcol = [''A'', ''B'', ''A'', ''B''], ycol = [1, 1, 2, 2],
          vcols = [[NaN, NaN, NaN, NaN]]\<rparr> \<and>
   vcols (concat_data
            \<lparr>is_Dataset = True, gridded = False, kdims = [''X'', ''Y''], vdims = [''V''],
             xcol = [''A'', ''B'', ''A'', ''B''], ycol = [1, 1, 2, 2],
             vcols = [[NaN, NaN, NaN, NaN]]\<rparr> table_override) ! 0
     = [NaN, NaN, NaN, NaN, NaN, Val 5, Val 7] \<and>
   vcols (aggregate reduce_fn
            (concat_data
               \<lparr>is_Dataset = True, gridded = False, kdims = [''X'', ''Y''], vdims = [''V''],
                xcol = [''A'', ''B'', ''A'', ''B''], ycol = [1, 1, 2, 2],
                vcols = [[NaN, NaN, NaN, NaN]]\<rparr> table_override)) ! 0 ! 0 = Val 5 \<and>
   (case process table_override of
      Inr (Gridded g) \<Rightarrow> arrays g ! 0 ! 0 ! 0 = Val 5
    | _ \<Rightarrow> False)"
proof -
  let ?t = table_override
  let ?D = "\<lparr>is_Dataset = True, gridded = False, kdims = [''X'', ''Y''], vdims = [''V''],
          xcol = [''A'', ''B'', ''A'', ''B''], ycol = [1, 1, 2, 2 :: int],
          vcols = [[NaN, NaN, NaN, NaN :: real val]]\<rparr>"
  have h1: "valid_input ?t"
    by code_simp
  have h2: "distinct [1, 2 :: int]"
    by simp
  have h3: "set [1, 2] = set (ycol ?t)"
    by (auto simp: table_override_def)
  have h4: "y_order ?t = Inr [1, 2]"
    by code_simp
  have h5: "list_all is_nan [NaN, NaN :: real val] \<and> \<not> is_nan (Val (3::real))"
    by (simp add: is_nan_def)
  have h6: "list_all is_nan [NaN, NaN :: real val]"
    by (simp add: is_nan_def)
  have d: "dense_data ?t [1, 2] = Inr ?D"
    by code_simp
  have x: "xcol ?t = [''A'', ''A'', ''B'']" and y: "ycol ?t = [1, 1, 2]"
    and vc: "vcols ?t = [[NaN, Val 5, Val 7]]"
    by (simp_all add: table_override_def)
  have u: "unique (xcol ?t) = [''A'', ''B'']"
    by code_simp
  have row: "\<not> is_nan (vcols ?t ! 0 ! 1) \<and>
             (\<forall>i'<1. xcol ?t ! i' = xcol ?t ! 1 \<and> ycol ?t ! i' = ycol ?t ! 1 \<longrightarrow>
                      is_nan (vcols ?t ! 0 ! i'))"
    by (simp add: vc is_nan_def)
  note t = reduce_fn_first_non_null [OF h1 h2 h3, where pre = "[NaN, NaN]"
      and w = "Val (3::real)" and rest = "[Val 4]" and vs = "[NaN, NaN]"]
  have a: "reduce_fn ([NaN, NaN] @ Val (3::real) # [Val 4]) = Val 3"
    using t h5 by blast
  have b: "reduce_fn [NaN, NaN :: real val] = NaN"
    using t h6 by blast
  from t obtain dense agg where dd: "dense_data ?t [1, 2] = Inr dense"
    and ag: "agg = aggregate reduce_fn (concat_data dense ?t)"
    and ax: "xcol agg = xcol dense" and ay: "ycol agg = ycol dense"
    and body: "\<forall>j<length (vcols ?t).
       vcols (concat_data dense ?t) ! j = vcols dense ! j @ vcols ?t ! j \<and>
       length (vcols dense ! j) = length (xcol dense) \<and>
       (\<forall>p<length (xcol agg).
          vcols agg ! j ! p
            = reduce_fn (pair_values ?t (vcols ?t ! j) (xcol agg ! p) (ycol agg ! p))) \<and>
       (\<forall>i<length (xcol ?t).
          \<not> is_nan (vcols ?t ! j ! i) \<and>
          (\<forall>i'<i. xcol ?t ! i' = xcol ?t ! i \<and> ycol ?t ! i' = ycol ?t ! i \<longrightarrow>
                   is_nan (vcols ?t ! j ! i')) \<longrightarrow>
          (\<forall>p<length (xcol agg).
             xcol agg ! p = xcol ?t ! i \<and> ycol agg ! p = ycol ?t ! i \<longrightarrow>
             vcols agg ! j ! p = vcols ?t ! j ! i) \<and>
          (y_order ?t = Inr [1, 2] \<longrightarrow>
             (\<exists>g. process ?t = Inr (Gridded g) \<and>
                xcoords g = unique (xcol ?t) \<and> ycoords g = [1, 2] \<and>
                (\<forall>r<length [1, 2 :: int]. \<forall>c<length (xcoords g).
                   xcoords g ! c = xcol ?t ! i \<and> [1, 2] ! r = ycol ?t ! i \<longrightarrow>
                   arrays g ! j ! r ! c = vcols ?t ! j ! i))))"
    by blast
  have de: "dense = ?D"
    using dd d by simp
  have j: "0 < length (vcols ?t)" and i: "1 < length (xcol ?t)"
    by (simp_all add: x vc)
  have "vcols (concat_data dense ?t) ! 0 = vcols dense ! 0 @ vcols ?t ! 0"
    by (rule body [rule_format, OF j, THEN conjunct1])
  then have c: "vcols (concat_data ?D ?t) ! 0 = [NaN, NaN, NaN, NaN, NaN, Val 5, Val 7]"
    by (simp add: de vc)
  have p: "0 < length (xcol agg)" "xcol agg ! 0 = xcol ?t ! 1 \<and> ycol agg ! 0 = ycol ?t ! 1"
    by (simp_all add: ax ay de x y)
  note d0 = body [rule_format, OF j, THEN conjunct2, THEN conjunct2, THEN conjunct2,
      rule_format, OF i row]
  have "vcols agg ! 0 ! 0 = vcols ?t ! 0 ! 1"
    by (rule d0 [THEN conjunct1, rule_format, OF p])
  then have e: "vcols (aggregate reduce_fn (concat_data ?D ?t)) ! 0 ! 0 = Val 5"
    by (simp add: ag de vc)
  from d0 [THEN conjunct2, rule_format, OF h4]
  obtain g where pg: "process ?t = Inr (Gridded g)" and xg: "xcoords g = unique (xcol ?t)"
    and cells: "\<forall>r<length [1, 2 :: int]. \<forall>c<length (xcoords g).
                   xcoords g ! c = xcol ?t ! 1 \<and> [1, 2] ! r = ycol ?t ! 1 \<longrightarrow>
                   arrays g ! 0 ! r ! c = vcols ?t ! 0 ! 1"
    by (elim exE conjE)
  have r0: "0 < length [1, 2 :: int]" and c0: "0 < length (xcoords g)"
    and m0: "xcoords g ! 0 = xcol ?t ! 1 \<and> [1, 2] ! 0 = ycol ?t ! 1"
    by (simp_all add: xg u x y)
  have "arrays g ! 0 ! 0 ! 0 = vcols ?t ! 0 ! 1"
    by (rule cells [rule_format, OF r0 c0 m0])
  then have f: "arrays g ! 0 ! 0 ! 0 = Val 5"
    by (simp add: vc)
  have v0: "vcols ?t ! 0 ! 0 = NaN" "vcols ?t ! 0 ! 1 = Val 5"
    by (simp_all add: vc)
  have g: "(case process ?t of Inr (Gridded g) \<Rightarrow> arrays g ! 0 ! 0 ! 0 = Val 5 | _ \<Rightarrow> False)"
    by (simp add: pg f)
  show ?thesis
    by (intro conjI h1 h2 h3 h4 h5 [THEN conjunct1] h5 [THEN conjunct2] a b v0 d c e g)
qed

text \<open>
  C6: for every input dataset that is stored in a gridded representation the operation
  returns that very input.
\<close>

theorem gridded_input_returned_unchanged:
  "is_Dataset obj \<Longrightarrow> gridded obj \<Longrightarrow> process obj = Inr (Same obj)"
  by (simp add: process_def)

text \<open>C6, witness.\<close>

theorem gridded_input_returned_unchanged_witness:
  "is_Dataset gridded_three_keys \<and> gridded gridded_three_keys \<and>
   process gridded_three_keys = Inr (Same gridded_three_keys)"
  using gridded_input_returned_unchanged [of gridded_three_keys]
  by (simp add: gridded_three_keys_def)

text \<open>
  C7: for every input that is not a gridded dataset and declares more than two key
  dimensions, the operation raises the \<open>ValueError\<close> that the spec names
  \<open>TooManyKeyDimensions\<close> and returns nothing.
\<close>

theorem too_many_key_dimensions_raises:
  "\<not> (is_Dataset obj \<and> gridded obj) \<Longrightarrow> 2 < length (kdims obj) \<Longrightarrow>
     process obj = Inl TooManyKeyDimensions \<and>
     TooManyKeyDimensions = ValueError ''Cannot aggregate more than two dimensions''"
  by (simp add: process_def ndims_def TooManyKeyDimensions_def)

text \<open>C7, witness.\<close>

theorem too_many_key_dimensions_raises_witness:
  "\<not> (is_Dataset table_three_keys \<and> gridded table_three_keys) \<and>
   2 < length (kdims table_three_keys) \<and>
   process table_three_keys = Inl (ValueError ''Cannot aggregate more than two dimensions'')"
  using too_many_key_dimensions_raises [of table_three_keys]
  by (simp add: table_three_keys_def)

text \<open>
  C8: for every input that is not a gridded dataset and has fewer than three dimensions in
  all, the operation raises the \<open>ValueError\<close> that the spec names
  \<open>InsufficientDimensions\<close> and returns nothing.
\<close>

theorem insufficient_dimensions_raises:
  "\<not> (is_Dataset obj \<and> gridded obj) \<Longrightarrow> length (kdims obj) + length (vdims obj) < 3 \<Longrightarrow>
     process obj = Inl InsufficientDimensions \<and>
     InsufficientDimensions =
       ValueError ''Must have at two dimensions to aggregate overand one value dimension to aggregate on.''"
  by (auto simp: process_def ndims_def dimensions_def InsufficientDimensions_def)

text \<open>C8, witness.\<close>

theorem insufficient_dimensions_raises_witness:
  "\<not> (is_Dataset table_two_dims \<and> gridded table_two_dims) \<and>
   length (kdims table_two_dims) + length (vdims table_two_dims) < 3 \<and>
   process table_two_dims = Inl InsufficientDimensions"
  using insufficient_dimensions_raises [of table_two_dims]
  by (simp add: table_two_dims_def)

text \<open>
  C9: for the rows (USA, 2000, 282.2) and (UK, 2005, 58.89) the output is a grid with X
  coordinates USA, UK (first-occurrence order), Y coordinates 2000, 2005 and the values
  [[282.2, NaN], [NaN, 58.89]].
\<close>

theorem docstring_example:
  "process table_country =
     Inr (Gridded \<lparr>grid_kdims = [''Country'', ''Year''], grid_vdims = [''Population''],
                   xcoords = [''USA'', ''UK''], ycoords = [2000, 2005],
                   arrays = [[[Val 282.2, NaN], [NaN, Val 58.89]]]\<rparr>)"
  by code_simp

text \<open>
  C10: the check for a gridded representation comes before the validation of the
  dimensions: a gridded dataset is returned as it is, without an error, also when it declares
  more than two key dimensions or fewer than three dimensions in all.
\<close>

theorem gridded_check_precedes_validation:
  "is_Dataset obj \<Longrightarrow> gridded obj \<Longrightarrow> 2 < ndims obj \<or> length (dimensions obj) < 3 \<Longrightarrow>
     process obj = Inr (Same obj) \<and> process obj \<noteq> Inl TooManyKeyDimensions \<and>
     process obj \<noteq> Inl InsufficientDimensions"
  by (simp add: process_def)

text \<open>C10, witness: a gridded dataset with three key dimensions and one with two dimensions
  in all.\<close>

theorem gridded_check_precedes_validation_witness:
  "is_Dataset gridded_three_keys \<and> gridded gridded_three_keys \<and> 2 < ndims gridded_three_keys \<and>
   process gridded_three_keys = Inr (Same gridded_three_keys) \<and>
   is_Dataset gridded_two_dims \<and> gridded gridded_two_dims \<and>
   length (dimensions gridded_two_dims) < 3 \<and>
   process gridded_two_dims = Inr (Same gridded_two_dims)"
  using gridded_check_precedes_validation [of gridded_three_keys]
    gridded_check_precedes_validation [of gridded_two_dims]
  by (simp add: gridded_three_keys_def gridded_two_dims_def ndims_def dimensions_def)

end
